theory Spec2Isabelle
  imports Main "HOL-Library.Sublist" "HOL-Library.Multiset"
begin

section \<open>The rate limiter of \<open>src/rate-limiter.js\<close>\<close>

text \<open>
  The class \<open>RateLimiter\<close> counts the requests admitted on each configured route and
  rejects a request once the route's count has reached its limit. It has two modes:
  without \<open>clusterMode\<close> the counts live in the object \<open>this.routeCounts\<close>; with
  \<open>clusterMode\<close> they live in a Redis store under the keys \<open>routeCounts:<path>\<close>.

  Numbers. The counts and limits of the program are JavaScript numbers. They are modelled
  as unbounded integers (\<^typ>\<open>int\<close>): a count starts at zero and grows by one, and on
  integers up to \<open>2^53\<close> JavaScript's \<open>+\<close> and \<open><\<close> are exact. The theory says nothing
  about limits that are not integers or that lie beyond that range.
\<close>

subsection \<open>JavaScript values and objects\<close>

text \<open>
  The values the comparison \<open>count < limit\<close> can meet: a number, \<open>undefined\<close> (a property
  that is absent) and \<open>null\<close> (the reply of \<open>GET\<close> for an absent key). \<open>toNumber\<close> is the
  conversion that \<open><\<close> applies to them; \<open>None\<close> stands for \<open>NaN\<close>, and every comparison
  with \<open>NaN\<close> is false.
\<close>

datatype jsval = Undefined | Null | Num int

fun toNumber :: "jsval \<Rightarrow> int option" where
  "toNumber Undefined = None"
| "toNumber Null = Some 0"
| "toNumber (Num n) = Some n"

definition js_lt :: "jsval \<Rightarrow> jsval \<Rightarrow> bool" where
  "js_lt a b = (case toNumber a of
                  None \<Rightarrow> False
                | Some x \<Rightarrow> (case toNumber b of None \<Rightarrow> False | Some y \<Rightarrow> x < y))"

text \<open>
  An object whose properties hold numbers is a list of key/value pairs in insertion
  order; a lookup (\<^const>\<open>map_of\<close>) finds the first pair of a key. \<open>get_prop obj k\<close> is the
  read \<open>obj[k]\<close>, \<open>put obj k v\<close> the write \<open>obj[k] = v\<close>. \<open>lodash_keys\<close> and
  \<open>lodash_mapValues\<close> are \<open>_.keys\<close> and \<open>_.mapValues\<close> on such an object.
\<close>

type_synonym obj = "(string \<times> int) list"

definition get_prop :: "obj \<Rightarrow> string \<Rightarrow> jsval" where
  "get_prop ob k = (case map_of ob k of None \<Rightarrow> Undefined | Some v \<Rightarrow> Num v)"

fun put :: "obj \<Rightarrow> string \<Rightarrow> int \<Rightarrow> obj" where
  "put [] k v = [(k, v)]"
| "put ((k', v') # ps) k v = (if k' = k then (k, v) # ps else (k', v') # put ps k v)"

text \<open>
  \<open>add_assign ob k d\<close> is \<open>ob[k] += d\<close> on a key the object holds. (On an absent key
  JavaScript stores \<open>NaN\<close>, which is no value of \<^typ>\<open>obj\<close>; the model leaves the
  object as it is. The program's one \<open>+=\<close> stands behind \<open>_.has\<close>.)
\<close>

definition add_assign :: "obj \<Rightarrow> string \<Rightarrow> int \<Rightarrow> obj" where
  "add_assign ob k d = (case map_of ob k of None \<Rightarrow> ob | Some v \<Rightarrow> put ob k (v + d))"

definition lodash_keys :: "obj \<Rightarrow> string list" where
  "lodash_keys ob = map fst ob"

definition lodash_mapValues :: "obj \<Rightarrow> (int \<Rightarrow> int) \<Rightarrow> obj" where
  "lodash_mapValues ob f = map (\<lambda>(k, v). (k, f v)) ob"

subsection \<open>lodash: \<open>_.has\<close>\<close>

text \<open>
  \<open>_.has(object, path)\<close> does not look the string \<open>path\<close> up as it stands. It first
  turns it into a list of keys (\<open>castPath\<close>): the string itself when \<open>isKey\<close> takes it
  for a plain property name, and otherwise the keys that \<open>stringToPath\<close> reads out of
  it, as in \<open>a.b[0]["c"]\<close>. Then it walks the keys down from the object (\<open>hasPath\<close>
  with \<open>baseHas\<close>). The definitions follow lodash 4.17 function by function; its three
  regular expressions are written out as the matchers they are.

  Characters. A request path arrives as single bytes, so a character of the model is a
  character of the program. The only line ends that the \<open>.\<close> of a regular expression
  can meet are line feed and carriage return.
\<close>

text \<open>\<open>hasOwnProperty\<close> on an object of the model.\<close>

definition own_key :: "obj \<Rightarrow> string \<Rightarrow> bool" where
  "own_key ob k = (map_of ob k \<noteq> None)"

text \<open>
  The character classes \<open>\w\<close> and \<open>\d\<close>, the two quotes \<open>"\<close> and \<open>'\<close>, the backslash, the
  line ends, and \<open>[^.[\]]\<close>, the characters a key may be written with outside brackets.
\<close>

definition is_word :: "char \<Rightarrow> bool" where
  "is_word c =
     (c \<in> set ''abcdefghijklmnopqrstuvwxyzABCDEFGHIJKLMNOPQRSTUVWXYZ0123456789_'')"

definition is_digit :: "char \<Rightarrow> bool" where
  "is_digit c = (c \<in> set ''0123456789'')"

definition is_quote :: "char \<Rightarrow> bool" where
  "is_quote c = (c = CHR 0x22 \<or> c = CHR 0x27)"

definition backslash :: char where
  "backslash = CHR 0x5C"

definition line_end :: "char \<Rightarrow> bool" where
  "line_end c = (c = CHR 0x0A \<or> c = CHR 0x0D)"

definition path_char :: "char \<Rightarrow> bool" where
  "path_char c = (c \<noteq> CHR ''.'' \<and> c \<noteq> CHR ''['' \<and> c \<noteq> CHR '']'')"

text \<open>
  \<open>quoted q s\<close> reads \<open>(?:(?!q)[^\\]|\\.)*?q\<close> at the start of \<open>s\<close>, the text after an
  opening quote \<open>q\<close>: characters other than \<open>q\<close> and the backslash, or a backslash with
  the character after it, up to the first \<open>q\<close> that stands free. It gives the text
  between the quotes and what follows the closing one. (At \<open>q\<close> and at a backslash only
  one branch of the expression applies, so there is a single way to read it.)
  \<open>quoted_key s\<close> is \<open>(["'])(?:(?!\1)[^\\]|\\.)*?\1\]\<close>: a quoted text and the closing
  bracket, \<open>s\<close> being what follows the opening bracket.
\<close>

fun quoted :: "char \<Rightarrow> string \<Rightarrow> (string \<times> string) option" where
  "quoted q [] = None"
| "quoted q (c # cs) =
     (if c = q then Some ([], cs)
      else if c = backslash then
        (case cs of
           [] \<Rightarrow> None
         | d # ds \<Rightarrow>
             if line_end d then None
             else (case quoted q ds of
                     None \<Rightarrow> None
                   | Some (body, rest) \<Rightarrow> Some (c # d # body, rest)))
      else (case quoted q cs of
              None \<Rightarrow> None
            | Some (body, rest) \<Rightarrow> Some (c # body, rest)))"

definition quoted_key :: "string \<Rightarrow> (string \<times> string) option" where
  "quoted_key s =
     (case s of
        [] \<Rightarrow> None
      | q # cs \<Rightarrow>
          if is_quote q then
            (case quoted q cs of
               None \<Rightarrow> None
             | Some (body, rest) \<Rightarrow>
                 (case rest of
                    [] \<Rightarrow> None
                  | c # rest' \<Rightarrow> if c = CHR '']'' then Some (body, rest') else None))
          else None)"

text \<open>
  \<open>reIsPlainProp\<close> is \<open>/^\w*$/\<close>. \<open>reIsDeepProp\<close> is
  \<open>/\.|\[(?:[^[\]]*|(["'])(?:(?!\1)[^\\]|\\.)*?\1)\]/\<close>: somewhere in the string stands a
  dot, or an opening bracket followed by characters that are no brackets and a closing
  bracket, or an opening bracket followed by a quoted text and a closing bracket.
  \<open>isKey\<close> is lodash's test of the same name on a string; its last disjunct is
  \<open>value in Object(object)\<close>, which beyond the object's own keys holds only for the names
  \<open>Object.prototype\<close> has, and those are plain.
\<close>

definition isPlainProp :: "string \<Rightarrow> bool" where
  "isPlainProp s = list_all is_word s"

fun isDeepProp :: "string \<Rightarrow> bool" where
  "isDeepProp [] = False"
| "isDeepProp (c # cs) =
     (c = CHR ''.''
      \<or> (c = CHR ''[''
          \<and> ((case dropWhile (\<lambda>x. x \<noteq> CHR ''['' \<and> x \<noteq> CHR '']'') cs of
                 [] \<Rightarrow> False
               | d # _ \<Rightarrow> d = CHR '']'')
             \<or> quoted_key cs \<noteq> None))
      \<or> isDeepProp cs)"

definition isKey :: "string \<Rightarrow> obj \<Rightarrow> bool" where
  "isKey v ob = (isPlainProp v \<or> \<not> isDeepProp v \<or> own_key ob v)"

text \<open>
  \<open>stringToPath\<close> runs \<open>rePropName\<close> over the string from left to right and collects one
  key per match. The expression has three branches, tried in this order at each place:
  \<^item> \<open>[^.[\]]+\<close>, a longest run of \<open>path_char\<close>; the key is the run.
  \<^item> \<open>\[(?:(-?\d+(?:\.\d+)?)|(["'])((?:(?!\2)[^\\]|\\.)*?)\2)\]\<close>, a number or a quoted
    text in brackets (\<open>bracket_key\<close>, on what follows the opening bracket); the key is
    the number as written (\<open>number_key\<close>), or the quoted text with \<open>reEscapeChar\<close>,
    \<open>/\\(\\)?/g\<close>, replaced by its group (\<open>unescape\<close>: a backslash goes, the second of
    two stays).
  \<^item> \<open>(?=(?:\.|\[\])(?:\.|\[\]|$))\<close>, the empty match before a dot or \<open>[]\<close> that is
    followed by a dot, by \<open>[]\<close> or by the end (\<open>empty_key\<close>); the key is empty, and the
    search goes on one character further.
  Where no branch matches, the search moves on by one character. A string that starts
  with a dot gets an empty key in front.
\<close>

fun unescape :: "string \<Rightarrow> string" where
  "unescape [] = []"
| "unescape (c # cs) =
     (if c = backslash then
        (case cs of
           [] \<Rightarrow> []
         | d # ds \<Rightarrow> if d = backslash then d # unescape ds else unescape cs)
      else c # unescape cs)"

definition number_key :: "string \<Rightarrow> (string \<times> string) option" where
  "number_key s =
     (let sign = (case s of [] \<Rightarrow> [] | c # _ \<Rightarrow> if c = CHR ''-'' then [c] else []);
          s1 = drop (length sign) s;
          whole = takeWhile is_digit s1;
          s2 = dropWhile is_digit s1;
          frac = (case s2 of
                    [] \<Rightarrow> []
                  | c # cs \<Rightarrow>
                      if c = CHR ''.'' \<and> takeWhile is_digit cs \<noteq> []
                      then c # takeWhile is_digit cs else []);
          s3 = drop (length frac) s2
      in if whole = [] then None
         else (case s3 of
                 [] \<Rightarrow> None
               | c # rest \<Rightarrow> if c = CHR '']'' then Some (sign @ whole @ frac, rest) else None))"

definition bracket_key :: "string \<Rightarrow> (string \<times> string) option" where
  "bracket_key s =
     (case number_key s of
        Some (num, rest) \<Rightarrow> Some (num, rest)
      | None \<Rightarrow>
          (case quoted_key s of
             None \<Rightarrow> None
           | Some (body, rest) \<Rightarrow> Some (unescape body, rest)))"

definition separator :: "string \<Rightarrow> string option" where
  "separator s =
     (case s of
        [] \<Rightarrow> None
      | c # cs \<Rightarrow>
          if c = CHR ''.'' then Some cs
          else if c = CHR ''['' then
            (case cs of [] \<Rightarrow> None | d # ds \<Rightarrow> if d = CHR '']'' then Some ds else None)
          else None)"

definition empty_key :: "string \<Rightarrow> bool" where
  "empty_key s =
     (case separator s of
        None \<Rightarrow> False
      | Some rest \<Rightarrow> rest = [] \<or> separator rest \<noteq> None)"

function scan :: "string \<Rightarrow> string list" where
  "scan [] = []"
| "scan (c # cs) =
     (if path_char c
      then takeWhile path_char (c # cs) # scan (dropWhile path_char cs)
      else (case (if c = CHR ''['' then bracket_key cs else None) of
              Some (tok, rest) \<Rightarrow> tok # scan rest
            | None \<Rightarrow> if empty_key (c # cs) then [] # scan cs else scan cs))"
  by pat_completeness auto

definition stringToPath :: "string \<Rightarrow> string list" where
  "stringToPath s =
     (case s of [] \<Rightarrow> [] | c # _ \<Rightarrow> if c = CHR ''.'' then [[]] else []) @ scan s"

definition castPath :: "string \<Rightarrow> obj \<Rightarrow> string list" where
  "castPath v ob = (if isKey v ob then [v] else stringToPath v)"

text \<open>
  \<open>hasPath\<close> walks the keys: at each one the value reached so far must have the key as
  a property of its own (\<open>baseHas\<close>), and the walk goes on from that property's value.
  The values met are the object and, below it, the numbers it holds; a number has no
  property of its own. \<open>hasPath_loop\<close> is the loop with its variable \<open>result\<close>, which
  starts as false. (After a failed walk lodash also accepts an index into an array or
  an \<open>arguments\<close> object; neither occurs here.)
\<close>

datatype jsnode = Object obj | Number int | Missing

definition baseHas :: "jsnode \<Rightarrow> string \<Rightarrow> bool" where
  "baseHas v key = (case v of Object ob \<Rightarrow> own_key ob key | _ \<Rightarrow> False)"

definition member :: "jsnode \<Rightarrow> string \<Rightarrow> jsnode" where
  "member v key =
     (case v of
        Object ob \<Rightarrow> (case map_of ob key of None \<Rightarrow> Missing | Some n \<Rightarrow> Number n)
      | _ \<Rightarrow> Missing)"

fun hasPath_loop :: "jsnode \<Rightarrow> string list \<Rightarrow> bool \<Rightarrow> bool" where
  "hasPath_loop v [] result = result"
| "hasPath_loop v (key # keys) result =
     (if baseHas v key then hasPath_loop (member v key) keys True else False)"

definition lodash_has :: "obj \<Rightarrow> string \<Rightarrow> bool" where
  "lodash_has ob p = hasPath_loop (Object ob) (castPath p ob) False"

subsection \<open>The Redis store and its client\<close>

text \<open>
  The store maps a key to the integer its string value denotes. The four commands the
  program sends are the store's own, as Redis documents them: \<open>SETNX\<close> writes only an
  absent key, \<open>EXISTS\<close> replies 1 or 0, \<open>GET\<close> replies the value or nil, \<open>INCR\<close> adds one
  (to zero for an absent key) and replies the new value. Each takes the store and gives
  the reply and the store after it.
\<close>

type_synonym kv = "string \<rightharpoonup> int"

definition SETNX :: "string \<Rightarrow> int \<Rightarrow> kv \<Rightarrow> int \<times> kv" where
  "SETNX k v s = (if s k = None then (1, s(k \<mapsto> v)) else (0, s))"

definition EXISTS :: "string \<Rightarrow> kv \<Rightarrow> int \<times> kv" where
  "EXISTS k s = (if s k = None then (0, s) else (1, s))"

definition GET :: "string \<Rightarrow> kv \<Rightarrow> int option \<times> kv" where
  "GET k s = (s k, s)"

definition INCR :: "string \<Rightarrow> kv \<Rightarrow> int \<times> kv" where
  "INCR k s = (let v = (case s k of None \<Rightarrow> 0 | Some c \<Rightarrow> c) + 1 in (v, s(k \<mapsto> v)))"

text \<open>
  The client (\<open>this.redis\<close>, an ioredis connection) sends a command and gives a promise
  of its reply. The network is the environment: \<open>link\<close> lists, for the commands to come,
  whether each one is delivered and answered (\<open>True\<close>) or lost to a transport failure
  (\<open>False\<close>); past the end of the list every command is delivered. A lost command leaves
  the store as it was and its promise is rejected, which an \<open>await\<close> turns into an
  exception: the value \<open>Inl StoreTransportError\<close>.
\<close>

datatype error = StoreTransportError

record redis =
  store :: kv
  link :: "bool list"

definition transmit :: "redis \<Rightarrow> (kv \<Rightarrow> 'a \<times> kv) \<Rightarrow> (error + 'a) \<times> redis" where
  "transmit r cmd =
     (case link r of
        [] \<Rightarrow> (Inr (fst (cmd (store r))), \<lparr>store = snd (cmd (store r)), link = []\<rparr>)
      | True # l \<Rightarrow> (Inr (fst (cmd (store r))), \<lparr>store = snd (cmd (store r)), link = l\<rparr>)
      | False # l \<Rightarrow> (Inl StoreTransportError, \<lparr>store = store r, link = l\<rparr>))"

text \<open>
  \<open>delivered l n\<close>: under the link \<open>l\<close>, the command with number \<open>n\<close> among those to
  come (the next one has number 0) is delivered.
\<close>

definition delivered :: "bool list \<Rightarrow> nat \<Rightarrow> bool" where
  "delivered l n = (case drop n l of [] \<Rightarrow> True | b # _ \<Rightarrow> b)"

definition redis_setnx :: "redis \<Rightarrow> string \<Rightarrow> int \<Rightarrow> (error + int) \<times> redis" where
  "redis_setnx r k v = transmit r (SETNX k v)"

definition redis_exists :: "redis \<Rightarrow> string \<Rightarrow> (error + int) \<times> redis" where
  "redis_exists r k = transmit r (EXISTS k)"

definition redis_get :: "redis \<Rightarrow> string \<Rightarrow> (error + int option) \<times> redis" where
  "redis_get r k = transmit r (GET k)"

definition redis_incr :: "redis \<Rightarrow> string \<Rightarrow> (error + int) \<times> redis" where
  "redis_incr r k = transmit r (INCR k)"

subsection \<open>Requests, responses and the controller\<close>

text \<open>
  A handler reads \<open>req.path\<close> only; the other fields of a request are the record's
  extension. A handler ends in one of two ways: it calls \<open>next()\<close>, which hands the
  request on, or it writes a response with \<open>res.status(s).json(body)\<close>: the HTTP status
  \<open>s\<close> and the body's \<open>statusCode\<close> and \<open>message\<close>.
\<close>

record req =
  path :: string

record response =
  status :: int
  statusCode :: int
  message :: string

datatype outcome = Next | Response response

definition not_configured :: "string \<Rightarrow> response" where
  "not_configured routePath =
     \<lparr>status = 429, statusCode = 400,
      message = ''Route path '' @ routePath @ '' not configured.''\<rparr>"

definition limit_reached :: "string \<Rightarrow> response" where
  "limit_reached routePath =
     \<lparr>status = 429, statusCode = 429,
      message = ''Route path '' @ routePath @ '' has reached its request limit.''\<rparr>"

text \<open>
  The three decisions of an admission check, read off an outcome: \<open>next()\<close> allows; a
  response rejects, and the \<open>statusCode\<close> of its body says why.
\<close>

datatype decision = ALLOW | REJECT_UNKNOWN_ROUTE | REJECT_QUOTA_EXCEEDED

fun decision_of :: "outcome \<Rightarrow> decision" where
  "decision_of Next = ALLOW"
| "decision_of (Response r) =
     (if statusCode r = 400 then REJECT_UNKNOWN_ROUTE else REJECT_QUOTA_EXCEEDED)"

text \<open>
  The configuration and the object the constructor builds from it. The constructor
  copies the three fields of the configuration, so the controller is the configuration
  extended by \<open>routeCounts\<close> and by \<open>limitRate\<close>, the handler the constructor chose.
  (\<open>routeCounts\<close> is never assigned in cluster mode; it is the empty object there, on
  which \<open>_.has\<close> is false as it is on \<open>undefined\<close>. The field \<open>getPathCounts\<close> is
  set to \<open>null\<close> and never read. The client \<open>this.redis\<close> is the \<open>redis\<close> argument of
  the functions that use it: the store behind it is shared with other processes.)
\<close>

record config =
  routeLimits :: obj
  clusterMode :: bool
  connectionString :: string

datatype handler = LimitRateCluster | LimitRateNonCluster

record rate_limiter = config +
  routeCounts :: obj
  limitRate :: handler

definition store_key :: "string \<Rightarrow> string" where
  "store_key routePath = ''routeCounts:'' @ routePath"

text \<open>
  The constructor. In cluster mode it sends one \<open>SETNX routeCounts:<key> 0\<close> for each key
  of \<open>routeLimits\<close>, in the order of the keys, and awaits none of the replies: a lost
  command changes nothing the constructor sees. The client sends its commands in the
  order they were issued, so the store runs these before any command of a later
  handler call; the model applies them to the store here. When the replies arrive, and
  what the process does about a rejected promise that nothing awaits, is outside this
  theory.
\<close>

definition RateLimiter :: "config \<Rightarrow> redis \<Rightarrow> rate_limiter \<times> redis" where
  "RateLimiter cfg r =
     (if clusterMode cfg then
        (\<lparr>routeLimits = routeLimits cfg, clusterMode = clusterMode cfg,
          connectionString = connectionString cfg,
          routeCounts = [], limitRate = LimitRateCluster\<rparr>,
         fold (\<lambda>key r'. snd (redis_setnx r' (store_key key) 0))
              (lodash_keys (routeLimits cfg)) r)
      else
        (\<lparr>routeLimits = routeLimits cfg, clusterMode = clusterMode cfg,
          connectionString = connectionString cfg,
          routeCounts = lodash_mapValues (routeLimits cfg) (\<lambda>_. 0),
          limitRate = LimitRateNonCluster\<rparr>,
         r))"

subsection \<open>The handler without cluster mode\<close>

text \<open>
  \<open>limitRateNonCluster\<close> (lines 37 to 47), branch by branch. The function returns the
  outcome and the controller after the call.
\<close>

definition limitRateNonCluster ::
  "rate_limiter \<Rightarrow> 'a req_scheme \<Rightarrow> outcome \<times> rate_limiter" where
  "limitRateNonCluster this rq =
     (let routePath = path rq in
      if \<not> lodash_has (routeCounts this) routePath
      then (Response (not_configured routePath), this)
      else if js_lt (get_prop (routeCounts this) routePath)
                    (get_prop (routeLimits this) routePath)
      then (Next, this\<lparr>routeCounts := add_assign (routeCounts this) routePath 1\<rparr>)
      else (Response (limit_reached routePath), this))"

text \<open>
  The handler has no \<open>await\<close>: a call runs from its first line to its last before the
  event loop starts another. A run of the server is therefore a list of requests, each
  handled whole, in the order the loop takes them. \<open>serve\<close> gives the outcomes in that
  order and the controller at the end.
\<close>

fun serve :: "rate_limiter \<Rightarrow> 'a req_scheme list \<Rightarrow> outcome list \<times> rate_limiter" where
  "serve this [] = ([], this)"
| "serve this (rq # rqs) =
     (let (out, this') = limitRateNonCluster this rq;
          (outs, this'') = serve this' rqs
      in (out # outs, this''))"

text \<open>
  \<open>admitted p rqs outs\<close> counts the requests on the route \<open>p\<close> among \<open>rqs\<close> whose
  outcome in \<open>outs\<close> is \<open>next()\<close>.
\<close>

definition admitted :: "string \<Rightarrow> 'a req_scheme list \<Rightarrow> outcome list \<Rightarrow> nat" where
  "admitted p rqs outs =
     length (filter (\<lambda>(rq, out). path rq = p \<and> out = Next) (zip rqs outs))"

subsection \<open>The handler in cluster mode\<close>

text \<open>
  The three helpers (lines 64 to 80) each await one command; a rejected promise leaves
  the helper as an exception (\<open>Inl\<close>). \<open>_pathIsValidForLimit\<close> is true exactly for the
  reply 1; \<open>_getPathCountCluster\<close> gives the value or \<open>null\<close>.
\<close>

definition pathIsValidForLimit :: "redis \<Rightarrow> string \<Rightarrow> (error + bool) \<times> redis" where
  "pathIsValidForLimit r p =
     (case redis_exists r (store_key p) of
        (Inl e, r') \<Rightarrow> (Inl e, r')
      | (Inr isValidLimit, r') \<Rightarrow> (Inr (isValidLimit = 1), r'))"

definition getPathCountCluster :: "redis \<Rightarrow> string \<Rightarrow> (error + jsval) \<times> redis" where
  "getPathCountCluster r p =
     (case redis_get r (store_key p) of
        (Inl e, r') \<Rightarrow> (Inl e, r')
      | (Inr None, r') \<Rightarrow> (Inr Null, r')
      | (Inr (Some cnt), r') \<Rightarrow> (Inr (Num cnt), r'))"

definition incrementPathCountCluster :: "redis \<Rightarrow> string \<Rightarrow> (error + unit) \<times> redis" where
  "incrementPathCountCluster r p =
     (case redis_incr r (store_key p) of
        (Inl e, r') \<Rightarrow> (Inl e, r')
      | (Inr _, r') \<Rightarrow> (Inr (), r'))"

text \<open>
  \<open>limitRateCluster\<close> (lines 50 to 61): the existence check, then the read and the
  comparison with \<open>this.routeLimits[routePath]\<close>, then the increment and \<open>next()\<close>. An
  exception at any \<open>await\<close> ends the call there: nothing after it runs, no response is
  written and \<open>next()\<close> is not called.
\<close>

definition limitRateCluster ::
  "rate_limiter \<Rightarrow> 'a req_scheme \<Rightarrow> redis \<Rightarrow> (error + outcome) \<times> redis" where
  "limitRateCluster this rq r =
     (let routePath = path rq in
      case pathIsValidForLimit r routePath of
        (Inl e, r1) \<Rightarrow> (Inl e, r1)
      | (Inr isValidPath, r1) \<Rightarrow>
          if \<not> isValidPath then (Inr (Response (not_configured routePath)), r1)
          else
            (case getPathCountCluster r1 routePath of
               (Inl e, r2) \<Rightarrow> (Inl e, r2)
             | (Inr cnt, r2) \<Rightarrow>
                 if js_lt cnt (get_prop (routeLimits this) routePath)
                 then
                   (case incrementPathCountCluster r2 routePath of
                      (Inl e, r3) \<Rightarrow> (Inl e, r3)
                    | (Inr _, r3) \<Rightarrow> (Inr Next, r3))
                 else (Inr (Response (limit_reached routePath)), r2)))"


section \<open>Properties\<close>

subsection \<open>\<open>_.has\<close>\<close>

text \<open>The search of \<open>stringToPath\<close> ends: each step leaves a shorter string.\<close>

lemma quoted_shorter: "quoted q s = Some (body, rest) \<Longrightarrow> length rest < length s"
proof (induction q s arbitrary: body rest rule: quoted.induct)
  case (1 q)
  then show ?case by simp
next
  case (2 q c cs)
  then show ?case
    by (fastforce split: if_splits list.splits option.splits)
qed

lemma quoted_key_shorter: "quoted_key s = Some (body, rest) \<Longrightarrow> length rest < length s"
  by (auto simp: quoted_key_def split: list.splits if_splits option.splits
      dest!: quoted_shorter)

lemma number_key_shorter: "number_key s = Some (num, rest) \<Longrightarrow> length rest < length s"
proof -
  assume a: "number_key s = Some (num, rest)"
  define sign where "sign = (case s of [] \<Rightarrow> [] | c # _ \<Rightarrow> if c = CHR ''-'' then [c] else [])"
  define s1 where "s1 = drop (length sign) s"
  define s2 where "s2 = dropWhile is_digit s1"
  define frac where "frac = (case s2 of [] \<Rightarrow> [] | c # cs \<Rightarrow>
      if c = CHR ''.'' \<and> takeWhile is_digit cs \<noteq> [] then c # takeWhile is_digit cs else [])"
  define s3 where "s3 = drop (length frac) s2"
  from a have "s3 = CHR '']'' # rest"
    unfolding number_key_def Let_def sign_def [symmetric] s1_def [symmetric]
      s2_def [symmetric] frac_def [symmetric] s3_def [symmetric]
    by (auto split: if_splits list.splits)
  then have "length rest < length s3" by simp
  also have "length s3 \<le> length s2" by (simp add: s3_def)
  also have "length s2 \<le> length s1" by (simp add: s2_def length_dropWhile_le)
  also have "length s1 \<le> length s" by (simp add: s1_def)
  finally show ?thesis .
qed

lemma bracket_key_shorter: "bracket_key s = Some (tok, rest) \<Longrightarrow> length rest < length s"
  by (auto simp: bracket_key_def split: option.splits
      dest: number_key_shorter quoted_key_shorter)

termination scan
proof (relation "measure length")
  show "wf (measure length)" by simp
next
  fix c :: char and cs
  show "(dropWhile path_char cs, c # cs) \<in> measure length"
    using length_dropWhile_le [of path_char cs] by simp
next
  fix c :: char and cs x2 x y
  assume "(if c = CHR ''['' then bracket_key cs else None) = Some x2" and "(x, y) = x2"
  then have "bracket_key cs = Some (x, y)" by (simp split: if_splits)
  from bracket_key_shorter [OF this] show "(y, c # cs) \<in> measure length" by simp
qed simp_all

text \<open>
  On an object of numbers \<open>_.has\<close> is true exactly when the path comes down to a
  single key and the object has it: a second key would have to be a property of a
  number.
\<close>

lemma hasPath_two: "\<not> hasPath_loop (Object ob) (k # k' # ks) b"
  by (simp add: baseHas_def member_def split: option.splits)

lemma has_single:
  "lodash_has ob p = (case castPath p ob of [k] \<Rightarrow> own_key ob k | _ \<Rightarrow> False)"
proof (cases "castPath p ob")
  case Nil
  then show ?thesis by (simp add: lodash_has_def)
next
  case (Cons k ks)
  then show ?thesis
    by (cases ks) (simp_all add: lodash_has_def baseHas_def member_def split: option.splits)
qed

lemma has_own: "own_key ob k \<Longrightarrow> lodash_has ob k"
  by (simp add: has_single castPath_def isKey_def)

lemma has_cong:
  assumes "\<And>k. own_key a k = own_key b k"
  shows "lodash_has a p = lodash_has b p"
proof -
  have "castPath p a = castPath p b"
    using assms by (simp add: castPath_def isKey_def)
  then show ?thesis
    using assms by (simp add: has_single split: list.splits)
qed

lemma not_deep: "CHR ''.'' \<notin> set s \<Longrightarrow> CHR ''['' \<notin> set s \<Longrightarrow> \<not> isDeepProp s"
  by (induction s) auto

lemma has_plain_path:
  "CHR ''.'' \<notin> set p \<Longrightarrow> CHR ''['' \<notin> set p \<Longrightarrow> lodash_has ob p = own_key ob p"
  by (simp add: has_single castPath_def isKey_def not_deep)


text \<open>
  A path that is no key can still come down to one: \<open>/a[.]\<close> is read as the single key
  \<open>/a\<close>, because nothing in \<open>[.]\<close> matches a branch of \<open>rePropName\<close>.
\<close>

lemma stringToPath_bracket_dot: "stringToPath ''/a[.]'' = [''/a'']"
  by (simp add: stringToPath_def path_char_def bracket_key_def number_key_def quoted_key_def
      empty_key_def separator_def is_digit_def is_quote_def)

lemma has_bracket_dot: "lodash_has [(''/a'', n)] ''/a[.]''"
  by (simp add: has_single castPath_def isKey_def isPlainProp_def is_word_def own_key_def
      stringToPath_bracket_dot)

subsection \<open>Objects\<close>

lemma map_of_put: "map_of (put ob k v) = (map_of ob)(k \<mapsto> v)"
  by (induction ob) (auto simp: fun_eq_iff)


lemma map_of_mapValues:
  "map_of (lodash_mapValues ob f) k = map_option f (map_of ob k)"
  by (induction ob) (auto simp: lodash_mapValues_def)

lemma keys_mapValues: "lodash_keys (lodash_mapValues ob f) = lodash_keys ob"
  by (simp add: lodash_keys_def lodash_mapValues_def comp_def case_prod_beta)

subsection \<open>The handler without cluster mode\<close>

lemma limitRateNonCluster_cases:
  "limitRateNonCluster this rq =
     (case map_of (routeCounts this) (path rq) of
        None \<Rightarrow>
          (Response (if lodash_has (routeCounts this) (path rq)
                     then limit_reached (path rq) else not_configured (path rq)), this)
      | Some cnt \<Rightarrow>
          if js_lt (Num cnt) (get_prop (routeLimits this) (path rq))
          then (Next, this\<lparr>routeCounts := put (routeCounts this) (path rq) (cnt + 1)\<rparr>)
          else (Response (limit_reached (path rq)), this))"
proof (cases "map_of (routeCounts this) (path rq)")
  case None
  then show ?thesis
    by (simp add: limitRateNonCluster_def Let_def get_prop_def js_lt_def)
next
  case (Some cnt)
  then have "lodash_has (routeCounts this) (path rq)"
    by (simp add: has_own own_key_def)
  with Some show ?thesis
    by (simp add: limitRateNonCluster_def Let_def get_prop_def add_assign_def)
qed

lemma nc_limits [simp]: "routeLimits (snd (limitRateNonCluster this rq)) = routeLimits this"
  by (simp add: limitRateNonCluster_cases Let_def split: option.splits)


lemma nc_other:
  "q \<noteq> path rq \<Longrightarrow>
   map_of (routeCounts (snd (limitRateNonCluster this rq))) q = map_of (routeCounts this) q"
  by (simp add: limitRateNonCluster_cases Let_def map_of_put split: option.splits)


lemma nc_admit:
  "map_of (routeCounts this) (path rq) = Some c \<Longrightarrow>
   map_of (routeLimits this) (path rq) = Some N \<Longrightarrow> c < N \<Longrightarrow>
   limitRateNonCluster this rq = (Next, this\<lparr>routeCounts := put (routeCounts this) (path rq) (c + 1)\<rparr>)"
  by (simp add: limitRateNonCluster_cases js_lt_def get_prop_def)

lemma nc_full:
  "map_of (routeCounts this) (path rq) = Some c \<Longrightarrow>
   map_of (routeLimits this) (path rq) = Some N \<Longrightarrow> \<not> c < N \<Longrightarrow>
   limitRateNonCluster this rq = (Response (limit_reached (path rq)), this)"
  by (simp add: limitRateNonCluster_cases js_lt_def get_prop_def)

lemma snd_serve_Cons:
  "snd (serve this (rq # rqs)) = snd (serve (snd (limitRateNonCluster this rq)) rqs)"
  by (simp add: case_prod_beta)

lemma fst_serve_Cons:
  "fst (serve this (rq # rqs))
     = fst (limitRateNonCluster this rq) # fst (serve (snd (limitRateNonCluster this rq)) rqs)"
  by (simp add: case_prod_beta)

lemma serve_limits [simp]: "routeLimits (snd (serve this rqs)) = routeLimits this"
  by (induction rqs arbitrary: this) (simp_all add: snd_serve_Cons del: serve.simps(2))

lemma serve_count:
  "map_of (routeCounts this) p = Some c \<Longrightarrow> map_of (routeLimits this) p = Some N \<Longrightarrow>
   map_of (routeCounts (snd (serve this rqs))) p
     = Some (max c (min (c + int (count_list (map path rqs) p)) N))"
proof (induction rqs arbitrary: this c)
  case Nil
  then show ?case by simp
next
  case (Cons rq rqs)
  obtain out this' where step: "limitRateNonCluster this rq = (out, this')"
    by (cases "limitRateNonCluster this rq")
  have lim: "map_of (routeLimits this') p = Some N"
    using nc_limits [of this rq] step Cons.prems(2) by simp
  show ?case
  proof (cases "path rq = p")
    case False
    then have "map_of (routeCounts this') p = Some c"
      using nc_other [of p rq this] step Cons.prems(1) by simp
    from Cons.IH [OF this lim] False step show ?thesis
      by (simp add: snd_serve_Cons del: serve.simps(2))
  next
    case True
    show ?thesis
    proof (cases "c < N")
      case lt: True
      have "this' = this\<lparr>routeCounts := put (routeCounts this) (path rq) (c + 1)\<rparr>"
        using nc_admit [of this rq c N] Cons.prems True lt step by simp
      then have "map_of (routeCounts this') p = Some (c + 1)"
        using True by (simp add: map_of_put)
      from Cons.IH [OF this lim] True step lt show ?thesis
        by (simp add: snd_serve_Cons max_def min_def del: serve.simps(2))
    next
      case ge: False
      have "this' = this"
        using nc_full [of this rq c N] Cons.prems True ge step by simp
      from Cons.IH [of this' c] this Cons.prems True step ge show ?thesis
        by (simp add: snd_serve_Cons max_def min_def del: serve.simps(2))
    qed
  qed
qed

lemma fresh_counts:
  "\<not> clusterMode cfg \<Longrightarrow>
   map_of (routeCounts (fst (RateLimiter cfg r))) k = map_option (\<lambda>_. 0) (map_of (routeLimits cfg) k)"
  by (simp add: RateLimiter_def map_of_mapValues)

lemma fresh_limits [simp]: "routeLimits (fst (RateLimiter cfg r)) = routeLimits cfg"
  by (simp add: RateLimiter_def)





lemma nc_decide:
  "map_of (routeCounts this) (path rq) = Some c \<Longrightarrow>
   map_of (routeLimits this) (path rq) = Some N \<Longrightarrow>
   fst (limitRateNonCluster this rq) = (if c < N then Next else Response (limit_reached (path rq)))"
  by (simp add: limitRateNonCluster_cases js_lt_def get_prop_def)

lemma nc_after_serve:
  assumes "\<not> clusterMode cfg" and "map_of (routeLimits cfg) p = Some N"
    and "path rq = p" and "count_list (map path rqs) p = k"
  shows "fst (limitRateNonCluster (snd (serve (fst (RateLimiter cfg r)) rqs)) rq)
           = (if int k < N then Next else Response (limit_reached p))"
proof -
  let ?ctl = "fst (RateLimiter cfg r)"
  have c0: "map_of (routeCounts ?ctl) p = Some 0"
    using assms(1,2) by (simp add: fresh_counts)
  have l0: "map_of (routeLimits ?ctl) p = Some N"
    using assms(2) by simp
  have c: "map_of (routeCounts (snd (serve ?ctl rqs))) p = Some (max 0 (min (0 + int k) N))"
    using serve_count [OF c0 l0, of rqs] assms(4) by simp
  have l: "map_of (routeLimits (snd (serve ?ctl rqs))) p = Some N"
    using l0 by simp
  show ?thesis
    using nc_decide [of "snd (serve ?ctl rqs)" rq, unfolded assms(3), OF c l] assms(3)
    by (simp add: max_def min_def)
qed

lemma nc_count_step:
  "map_of (routeCounts this) p = Some c \<Longrightarrow>
   map_of (routeCounts (snd (limitRateNonCluster this rq))) p
     = Some (if path rq = p \<and> fst (limitRateNonCluster this rq) = Next then c + 1 else c)"
  by (auto simp: limitRateNonCluster_cases Let_def map_of_put split: option.splits)

lemma admitted_Cons:
  "admitted p (rq # rqs) (out # outs)
     = (if path rq = p \<and> out = Next then 1 else 0) + admitted p rqs outs"
  by (simp add: admitted_def)

lemma admitted_Nil [simp]: "admitted p [] outs = 0"
  by (simp add: admitted_def)

lemma serve_admitted:
  "map_of (routeCounts this) p = Some c \<Longrightarrow>
   map_of (routeCounts (snd (serve this rqs))) p
     = Some (c + int (admitted p rqs (fst (serve this rqs))))"
proof (induction rqs arbitrary: this c)
  case Nil
  then show ?case by simp
next
  case (Cons rq rqs)
  let ?ctl' = "snd (limitRateNonCluster this rq)"
  let ?d = "if path rq = p \<and> fst (limitRateNonCluster this rq) = Next then (1::int) else 0"
  have "map_of (routeCounts ?ctl') p = Some (c + ?d)"
    using nc_count_step [OF Cons.prems, of rq] by simp
  from Cons.IH [OF this] show ?case
    by (simp add: snd_serve_Cons fst_serve_Cons admitted_Cons del: serve.simps(2))
qed

lemma serve_nth:
  "i < length rqs \<Longrightarrow>
   fst (serve this rqs) ! i = fst (limitRateNonCluster (snd (serve this (take i rqs))) (rqs ! i))"
proof (induction rqs arbitrary: this i)
  case Nil
  then show ?case by simp
next
  case (Cons rq rqs)
  show ?case
  proof (cases i)
    case 0
    then show ?thesis by (simp add: fst_serve_Cons del: serve.simps(2))
  next
    case (Suc j)
    with Cons.prems have "j < length rqs" by simp
    from Cons.IH [OF this] Suc show ?thesis
      by (simp add: fst_serve_Cons snd_serve_Cons del: serve.simps(2))
  qed
qed

lemma length_serve [simp]: "length (fst (serve this rqs)) = length rqs"
  by (induction rqs arbitrary: this) (simp_all add: fst_serve_Cons del: serve.simps(2))

lemma count_list_take_less:
  "i < length xs \<Longrightarrow> xs ! i = x \<Longrightarrow> count_list (take i xs) x < count_list xs x"
proof (induction xs arbitrary: i)
  case Nil
  then show ?case by simp
next
  case (Cons a xs)
  then show ?case by (cases i) auto
qed

subsection \<open>The handler in cluster mode\<close>

lemma transmit_eq:
  "transmit r cmd =
     (if delivered (link r) 0
      then (Inr (fst (cmd (store r))), \<lparr>store = snd (cmd (store r)), link = tl (link r)\<rparr>)
      else (Inl StoreTransportError, \<lparr>store = store r, link = tl (link r)\<rparr>))"
  by (simp add: transmit_def delivered_def split: list.splits bool.splits)

lemma delivered_tl [simp]: "delivered (tl l) n = delivered l (Suc n)"
  by (simp add: delivered_def drop_Suc)

lemma cluster_result:
  "fst (limitRateCluster this rq r) =
     (if \<not> delivered (link r) 0 then Inl StoreTransportError
      else case store r (store_key (path rq)) of
        None \<Rightarrow> Inr (Response (not_configured (path rq)))
      | Some c \<Rightarrow>
          if \<not> delivered (link r) 1 then Inl StoreTransportError
          else if js_lt (Num c) (get_prop (routeLimits this) (path rq))
          then (if \<not> delivered (link r) 2 then Inl StoreTransportError else Inr Next)
          else Inr (Response (limit_reached (path rq))))"
  by (simp add: limitRateCluster_def pathIsValidForLimit_def getPathCountCluster_def
      incrementPathCountCluster_def redis_exists_def redis_get_def redis_incr_def
      transmit_eq EXISTS_def GET_def INCR_def Let_def
      numeral_2_eq_2
      split: option.splits)

lemma cluster_store:
  "store (snd (limitRateCluster this rq r)) =
     (if fst (limitRateCluster this rq r) = Inr Next
      then (store r)(store_key (path rq) \<mapsto> (case store r (store_key (path rq)) of None \<Rightarrow> 0 | Some c \<Rightarrow> c) + 1)
      else store r)"
  by (simp add: limitRateCluster_def pathIsValidForLimit_def getPathCountCluster_def
      incrementPathCountCluster_def redis_exists_def redis_get_def redis_incr_def
      transmit_eq EXISTS_def GET_def INCR_def Let_def
      split: option.splits)

subsection \<open>Seeding\<close>

lemma setnx_store:
  "store (snd (redis_setnx r k v)) =
     (if delivered (link r) 0 \<and> store r k = None then (store r)(k \<mapsto> v) else store r)"
  by (simp add: redis_setnx_def transmit_eq SETNX_def)

lemma setnx_link: "link (snd (redis_setnx r k v)) = tl (link r)"
  by (simp add: redis_setnx_def transmit_eq SETNX_def)

lemma seed_keeps:
  "store r k = Some v \<Longrightarrow>
   store (fold (\<lambda>key r'. snd (redis_setnx r' (store_key key) 0)) ks r) k = Some v"
proof (induction ks arbitrary: r)
  case Nil
  then show ?case by simp
next
  case (Cons a ks)
  have "store (snd (redis_setnx r (store_key a) 0)) k = Some v"
    using Cons.prems by (auto simp: setnx_store)
  from Cons.IH [OF this] show ?case by simp
qed

lemma seed_new:
  "store r k = None \<Longrightarrow>
   store (fold (\<lambda>key r'. snd (redis_setnx r' (store_key key) 0)) ks r) k = None
   \<or> (store (fold (\<lambda>key r'. snd (redis_setnx r' (store_key key) 0)) ks r) k = Some 0
       \<and> k \<in> store_key ` set ks)"
proof (induction ks arbitrary: r)
  case Nil
  then show ?case by simp
next
  case (Cons a ks)
  let ?r1 = "snd (redis_setnx r (store_key a) 0)"
  show ?case
  proof (cases "store ?r1 k")
    case None
    from Cons.IH [OF this] show ?thesis by auto
  next
    case (Some v)
    with Cons.prems have "v = 0 \<and> k = store_key a"
      by (auto simp: setnx_store split: if_splits)
    with Some seed_keeps [of ?r1 k v ks] show ?thesis by simp
  qed
qed


lemma seed_all:
  "link r = [] \<Longrightarrow> key \<in> set ks \<Longrightarrow>
   store (fold (\<lambda>key r'. snd (redis_setnx r' (store_key key) 0)) ks r) (store_key key) \<noteq> None"
proof (induction ks arbitrary: r)
  case Nil
  then show ?case by simp
next
  case (Cons a ks)
  let ?r1 = "snd (redis_setnx r (store_key a) 0)"
  have l1: "link ?r1 = []" using Cons.prems(1) by (simp add: setnx_link)
  show ?case
  proof (cases "key = a")
    case True
    have "store ?r1 (store_key a) \<noteq> None"
      using Cons.prems(1) by (simp add: setnx_store delivered_def)
    then obtain v where "store ?r1 (store_key a) = Some v" by blast
    from seed_keeps [OF this, of ks] True show ?thesis by simp
  next
    case False
    with Cons.prems(2) have "key \<in> set ks" by simp
    from Cons.IH [OF l1 this] show ?thesis by simp
  qed
qed

lemma seed_idem:
  assumes "\<And>key. key \<in> set ks \<Longrightarrow> store r (store_key key) \<noteq> None"
  shows "store (fold (\<lambda>key r'. snd (redis_setnx r' (store_key key) 0)) ks r) = store r"
proof (rule ext)
  fix k
  show "store (fold (\<lambda>key r'. snd (redis_setnx r' (store_key key) 0)) ks r) k = store r k"
  proof (cases "store r k")
    case None
    have "k \<notin> store_key ` set ks"
      using assms None by force
    with seed_new [OF None, of ks] None show ?thesis by auto
  next
    case (Some v)
    with seed_keeps [OF Some, of ks] show ?thesis by simp
  qed
qed

lemma ctor_redis:
  "clusterMode cfg \<Longrightarrow>
   snd (RateLimiter cfg r)
     = fold (\<lambda>key r'. snd (redis_setnx r' (store_key key) 0)) (lodash_keys (routeLimits cfg)) r"
  by (simp add: RateLimiter_def)

lemma count_list_replicate_same: "count_list (replicate i x) x = i"
  by (induction i) simp_all

lemma nth_two_replicates:
  "i < a + b \<Longrightarrow> (replicate a x @ replicate b y) ! i = (if i < a then x else y)"
  by (simp add: nth_append)

subsection \<open>Responses and decisions\<close>

lemma decision_allow [simp]: "(decision_of out = ALLOW) = (out = Next)"
  by (cases out) simp_all

lemma sublist_not_configured: "sublist p (message (not_configured p))"
proof -
  have "message (not_configured p) = ''Route path '' @ p @ '' not configured.''"
    by (simp add: not_configured_def)
  then show ?thesis by (simp only: sublist_appendI)
qed

lemma sublist_limit_reached: "sublist p (message (limit_reached p))"
proof -
  have "message (limit_reached p) = ''Route path '' @ p @ '' has reached its request limit.''"
    by (simp add: limit_reached_def)
  then show ?thesis by (simp only: sublist_appendI)
qed

subsection \<open>Runs in cluster mode\<close>




lemma store_key_inj [simp]: "(store_key a = store_key b) = (a = b)"
  by (simp add: store_key_def)






section \<open>The claims\<close>

text \<open>
  In the witnesses, the configuration is the one of the specification's example
  scenario, the limit 2 on the route \<open>/a\<close>, and the store starts empty with a link
  that delivers every command, unless the text says otherwise.
\<close>

text \<open>
  C1 (quota boundary). Without cluster mode, on a controller fresh from the constructor,
  a route \<open>p\<close> with the limit \<open>N\<close> is decided by the number of earlier calls on \<open>p\<close>
  alone: after any run \<open>rqs\<close> of earlier requests (on \<open>p\<close> or on other routes), the
  next call on \<open>p\<close> is allowed if fewer than \<open>N\<close> of them were on \<open>p\<close>, and rejected
  with the quota-exceeded response otherwise. In particular \<open>n\<close> calls in a row on \<open>p\<close>
  give \<open>ALLOW\<close> for the first \<open>N\<close> and \<open>REJECT_QUOTA_EXCEEDED\<close> for all the later
  ones; the comparison is strict, so with \<open>N = 0\<close> (or below) none is allowed.
\<close>

theorem quota_boundary:
  fixes rq :: "'a req_scheme" and rqs :: "'a req_scheme list"
  assumes "\<not> clusterMode cfg"
    and "map_of (routeLimits cfg) p = Some N"
    and "path rq = p"
  shows "decision_of (fst (limitRateNonCluster (snd (serve (fst (RateLimiter cfg r)) rqs)) rq))
           = (if int (count_list (map path rqs) p) < N then ALLOW else REJECT_QUOTA_EXCEEDED)
       \<and> map decision_of (fst (serve (fst (RateLimiter cfg r)) (replicate n rq)))
           = replicate (min n (nat N)) ALLOW @ replicate (n - nat N) REJECT_QUOTA_EXCEEDED"
proof -
  let ?ctl = "fst (RateLimiter cfg r)"
  have general: "decision_of (fst (limitRateNonCluster (snd (serve ?ctl rqs')) rq))
      = (if int (count_list (map path rqs') p) < N then ALLOW else REJECT_QUOTA_EXCEEDED)"
    for rqs' :: "'a req_scheme list"
    using nc_after_serve [OF assms(1,2,3) refl, of r rqs']
    by (simp add: limit_reached_def)
  let ?run = "map decision_of (fst (serve ?ctl (replicate n rq)))"
  let ?want = "replicate (min n (nat N)) ALLOW @ replicate (n - nat N) REJECT_QUOTA_EXCEEDED"
  have len: "length ?want = n" by simp
  have "?run ! i = ?want ! i" if i: "i < n" for i
  proof -
    have "?run ! i
        = decision_of (fst (limitRateNonCluster (snd (serve ?ctl (replicate i rq))) rq))"
      using i serve_nth [of i "replicate n rq" ?ctl] by (simp add: min_def)
    also have "\<dots> = (if int i < N then ALLOW else REJECT_QUOTA_EXCEEDED)"
      using general [of "replicate i rq"] assms(3) by (simp add: count_list_replicate_same)
    also have "\<dots> = ?want ! i"
    proof -
      have "i < min n (nat N) + (n - nat N)" using i by simp
      then have "?want ! i = (if i < min n (nat N) then ALLOW else REJECT_QUOTA_EXCEEDED)"
        by (rule nth_two_replicates)
      moreover have "(i < min n (nat N)) = (int i < N)" using i by arith
      ultimately show ?thesis by (simp only:)
    qed
    finally show ?thesis .
  qed
  then have "?run = ?want"
    using len by (intro nth_equalityI) simp_all
  with general [of rqs] show ?thesis by simp
qed

theorem quota_boundary_witness:
  "\<not> clusterMode \<lparr>routeLimits = [(''/a'', 2)], clusterMode = False, connectionString = ''''\<rparr>
   \<and> map_of (routeLimits \<lparr>routeLimits = [(''/a'', 2)], clusterMode = False,
                          connectionString = ''''\<rparr>) ''/a'' = Some 2
   \<and> path \<lparr>path = ''/a''\<rparr> = ''/a''
   \<and> decision_of (fst (limitRateNonCluster (snd (serve
         (fst (RateLimiter \<lparr>routeLimits = [(''/a'', 2)], clusterMode = False,
                            connectionString = ''''\<rparr>
                 \<lparr>store = Map.empty, link = []\<rparr>))
         [\<lparr>path = ''/a''\<rparr>, \<lparr>path = ''/b''\<rparr>, \<lparr>path = ''/a''\<rparr>])) \<lparr>path = ''/a''\<rparr>))
       = REJECT_QUOTA_EXCEEDED
   \<and> map decision_of (fst (serve
         (fst (RateLimiter \<lparr>routeLimits = [(''/a'', 2)], clusterMode = False,
                            connectionString = ''''\<rparr>
                 \<lparr>store = Map.empty, link = []\<rparr>))
         (replicate 3 \<lparr>path = ''/a''\<rparr>)))
       = [ALLOW, ALLOW, REJECT_QUOTA_EXCEEDED]"
  using quota_boundary [of
      "\<lparr>routeLimits = [(''/a'', 2)], clusterMode = False, connectionString = ''''\<rparr>"
      "''/a''" 2 "\<lparr>path = ''/a''\<rparr>" "\<lparr>store = Map.empty, link = []\<rparr>"
      "[\<lparr>path = ''/a''\<rparr>, \<lparr>path = ''/b''\<rparr>, \<lparr>path = ''/a''\<rparr>]" 3]
  by (simp add: numeral_3_eq_3)




text \<open>
  C3 (store failure). In cluster mode, a call whose existence check, read or increment
  is lost ends in \<open>StoreTransportError\<close>: the exception that leaves the handler, which
  is neither of the two rejections and not \<open>next()\<close>. The read is sent only for a key
  the store holds and the increment only when the count is below the limit. Such a call
  leaves the store as it was, and a call ends this way only if one of its at most three
  commands was lost.
\<close>

theorem store_failure_surfaces:
  "(\<not> delivered (link r) 0 \<longrightarrow>
      fst (limitRateCluster this rq r) = Inl StoreTransportError)
   \<and> (store r (store_key (path rq)) \<noteq> None \<and> \<not> delivered (link r) 1 \<longrightarrow>
      fst (limitRateCluster this rq r) = Inl StoreTransportError)
   \<and> (store r (store_key (path rq)) = Some c
        \<and> js_lt (Num c) (get_prop (routeLimits this) (path rq))
        \<and> \<not> delivered (link r) 2 \<longrightarrow>
      fst (limitRateCluster this rq r) = Inl StoreTransportError)
   \<and> (fst (limitRateCluster this rq r) = Inl StoreTransportError \<longrightarrow>
      store (snd (limitRateCluster this rq r)) = store r
      \<and> (\<forall>out. fst (limitRateCluster this rq r) \<noteq> Inr out)
      \<and> (\<not> delivered (link r) 0 \<or> \<not> delivered (link r) 1 \<or> \<not> delivered (link r) 2))"
proof -
  have unchanged: "store (snd (limitRateCluster this rq r)) = store r"
    if "fst (limitRateCluster this rq r) = Inl StoreTransportError"
    using that cluster_store [of this rq r] by simp
  have cause: "\<not> delivered (link r) 0 \<or> \<not> delivered (link r) 1 \<or> \<not> delivered (link r) 2"
    if "fst (limitRateCluster this rq r) = Inl StoreTransportError"
    using that by (auto simp: cluster_result split: if_splits option.splits)
  have exists_lost: "fst (limitRateCluster this rq r) = Inl StoreTransportError"
    if "\<not> delivered (link r) 0"
    using that by (simp add: cluster_result)
  have get_lost: "fst (limitRateCluster this rq r) = Inl StoreTransportError"
    if "store r (store_key (path rq)) \<noteq> None" and "\<not> delivered (link r) 1"
    using that by (auto simp: cluster_result)
  have incr_lost: "fst (limitRateCluster this rq r) = Inl StoreTransportError"
    if "store r (store_key (path rq)) = Some c"
      and "js_lt (Num c) (get_prop (routeLimits this) (path rq))"
      and "\<not> delivered (link r) 2"
    using that by (simp add: cluster_result)
  from exists_lost get_lost incr_lost unchanged cause show ?thesis
    by (intro conjI impI allI) simp_all
qed

theorem store_failure_surfaces_witness:
  "\<not> delivered (link \<lparr>store = [''routeCounts:/a'' \<mapsto> 1], link = [False]\<rparr>) 0
   \<and> fst (limitRateCluster
       \<lparr>routeLimits = [(''/a'', 2)], clusterMode = True, connectionString = '''',
        routeCounts = [], limitRate = LimitRateCluster\<rparr> \<lparr>path = ''/a''\<rparr>
       \<lparr>store = [''routeCounts:/a'' \<mapsto> 1], link = [False]\<rparr>) = Inl StoreTransportError
   \<and> store \<lparr>store = [''routeCounts:/a'' \<mapsto> 1], link = [True, False]\<rparr>
         (store_key (path \<lparr>path = ''/a''\<rparr>)) \<noteq> None
   \<and> \<not> delivered (link \<lparr>store = [''routeCounts:/a'' \<mapsto> 1], link = [True, False]\<rparr>) 1
   \<and> fst (limitRateCluster
       \<lparr>routeLimits = [(''/a'', 2)], clusterMode = True, connectionString = '''',
        routeCounts = [], limitRate = LimitRateCluster\<rparr> \<lparr>path = ''/a''\<rparr>
       \<lparr>store = [''routeCounts:/a'' \<mapsto> 1], link = [True, False]\<rparr>) = Inl StoreTransportError
   \<and> store \<lparr>store = [''routeCounts:/a'' \<mapsto> 1], link = [True, True, False]\<rparr>
         (store_key (path \<lparr>path = ''/a''\<rparr>)) = Some 1
   \<and> js_lt (Num 1) (get_prop [(''/a'', 2)] ''/a'')
   \<and> \<not> delivered (link \<lparr>store = [''routeCounts:/a'' \<mapsto> 1], link = [True, True, False]\<rparr>) 2
   \<and> fst (limitRateCluster
       \<lparr>routeLimits = [(''/a'', 2)], clusterMode = True, connectionString = '''',
        routeCounts = [], limitRate = LimitRateCluster\<rparr> \<lparr>path = ''/a''\<rparr>
       \<lparr>store = [''routeCounts:/a'' \<mapsto> 1], link = [True, True, False]\<rparr>)
       = Inl StoreTransportError
   \<and> store (snd (limitRateCluster
       \<lparr>routeLimits = [(''/a'', 2)], clusterMode = True, connectionString = '''',
        routeCounts = [], limitRate = LimitRateCluster\<rparr> \<lparr>path = ''/a''\<rparr>
       \<lparr>store = [''routeCounts:/a'' \<mapsto> 1], link = [True, True, False]\<rparr>))
       = [''routeCounts:/a'' \<mapsto> 1]"
  using store_failure_surfaces [of "\<lparr>store = [''routeCounts:/a'' \<mapsto> 1], link = [False]\<rparr>"
      "\<lparr>routeLimits = [(''/a'', 2)], clusterMode = True, connectionString = '''',
        routeCounts = [], limitRate = LimitRateCluster\<rparr>" "\<lparr>path = ''/a''\<rparr>" 1]
    store_failure_surfaces [of "\<lparr>store = [''routeCounts:/a'' \<mapsto> 1], link = [True, False]\<rparr>"
      "\<lparr>routeLimits = [(''/a'', 2)], clusterMode = True, connectionString = '''',
        routeCounts = [], limitRate = LimitRateCluster\<rparr>" "\<lparr>path = ''/a''\<rparr>" 1]
    store_failure_surfaces [of
      "\<lparr>store = [''routeCounts:/a'' \<mapsto> 1], link = [True, True, False]\<rparr>"
      "\<lparr>routeLimits = [(''/a'', 2)], clusterMode = True, connectionString = '''',
        routeCounts = [], limitRate = LimitRateCluster\<rparr>" "\<lparr>path = ''/a''\<rparr>" 1]
  by (simp add: delivered_def store_key_def js_lt_def get_prop_def numeral_2_eq_2)

text \<open>
  C5 (the counter moves by one, and only on \<open>ALLOW\<close>). In both modes, a call that
  allows the request adds exactly one to the count of the request's route and changes
  no other count; a call that rejects leaves every count as it was. So no count ever
  decreases over a call, in cluster mode also when the call ends in a transport
  failure.
\<close>

theorem counter_step:
  "(decision_of (fst (limitRateNonCluster this rq)) = ALLOW \<longrightarrow>
      (\<exists>c. map_of (routeCounts this) (path rq) = Some c
          \<and> map_of (routeCounts (snd (limitRateNonCluster this rq)))
              = (map_of (routeCounts this))(path rq \<mapsto> c + 1)))
   \<and> (decision_of (fst (limitRateNonCluster this rq)) \<noteq> ALLOW \<longrightarrow>
        snd (limitRateNonCluster this rq) = this)
   \<and> (fst (limitRateCluster ctl rq' r) = Inr out \<and> decision_of out = ALLOW \<longrightarrow>
        (\<exists>c. store r (store_key (path rq')) = Some c
            \<and> store (snd (limitRateCluster ctl rq' r))
                = (store r)(store_key (path rq') \<mapsto> c + 1)))
   \<and> (fst (limitRateCluster ctl rq' r) = Inr out \<and> decision_of out \<noteq> ALLOW \<longrightarrow>
        store (snd (limitRateCluster ctl rq' r)) = store r)
   \<and> (map_of (routeCounts this) q = Some c \<longrightarrow>
        (\<exists>c'. map_of (routeCounts (snd (limitRateNonCluster this rq))) q = Some c' \<and> c \<le> c'))
   \<and> (store r k = Some d \<longrightarrow>
        (\<exists>d'. store (snd (limitRateCluster ctl rq' r)) k = Some d' \<and> d \<le> d'))"
proof -
  have local_allow: "\<exists>c. map_of (routeCounts this) (path rq) = Some c
          \<and> map_of (routeCounts (snd (limitRateNonCluster this rq)))
              = (map_of (routeCounts this))(path rq \<mapsto> c + 1)"
    if "decision_of (fst (limitRateNonCluster this rq)) = ALLOW"
    using that
    by (simp add: limitRateNonCluster_cases Let_def map_of_put split: option.splits if_splits)
  have local_reject: "snd (limitRateNonCluster this rq) = this"
    if "decision_of (fst (limitRateNonCluster this rq)) \<noteq> ALLOW"
    using that
    by (simp add: limitRateNonCluster_cases Let_def split: option.splits if_splits)
  have shared_allow: "\<exists>c. store r (store_key (path rq')) = Some c
            \<and> store (snd (limitRateCluster ctl rq' r))
                = (store r)(store_key (path rq') \<mapsto> c + 1)"
    if "fst (limitRateCluster ctl rq' r) = Inr out" and "decision_of out = ALLOW"
  proof -
    from that have nxt: "fst (limitRateCluster ctl rq' r) = Inr Next" by simp
    then obtain c where c: "store r (store_key (path rq')) = Some c"
      by (auto simp: cluster_result split: if_splits option.splits)
    with nxt cluster_store [of ctl "rq'" r] show ?thesis by simp
  qed
  have shared_reject: "store (snd (limitRateCluster ctl rq' r)) = store r"
    if "fst (limitRateCluster ctl rq' r) = Inr out" and "decision_of out \<noteq> ALLOW"
    using that cluster_store [of ctl "rq'" r] by simp
  have mono_local:
    "\<exists>c'. map_of (routeCounts (snd (limitRateNonCluster this rq))) q = Some c' \<and> c \<le> c'"
    if "map_of (routeCounts this) q = Some c"
    using nc_count_step [OF that, of rq] by simp
  have mono_shared: "\<exists>d'. store (snd (limitRateCluster ctl rq' r)) k = Some d' \<and> d \<le> d'"
    if "store r k = Some d"
    using that cluster_store [of ctl "rq'" r] by auto
  from local_allow local_reject shared_allow shared_reject mono_local mono_shared
  show ?thesis by blast
qed

theorem counter_step_witness:
  "decision_of (fst (limitRateNonCluster
       \<lparr>routeLimits = [(''/a'', 2)], clusterMode = False, connectionString = '''',
        routeCounts = [(''/a'', 1)], limitRate = LimitRateNonCluster\<rparr> \<lparr>path = ''/a''\<rparr>)) = ALLOW
   \<and> map_of (routeCounts (snd (limitRateNonCluster
       \<lparr>routeLimits = [(''/a'', 2)], clusterMode = False, connectionString = '''',
        routeCounts = [(''/a'', 1)], limitRate = LimitRateNonCluster\<rparr> \<lparr>path = ''/a''\<rparr>))) ''/a''
       = Some 2
   \<and> decision_of (fst (limitRateNonCluster
       \<lparr>routeLimits = [(''/a'', 2)], clusterMode = False, connectionString = '''',
        routeCounts = [(''/a'', 2)], limitRate = LimitRateNonCluster\<rparr> \<lparr>path = ''/a''\<rparr>)) \<noteq> ALLOW
   \<and> snd (limitRateNonCluster
       \<lparr>routeLimits = [(''/a'', 2)], clusterMode = False, connectionString = '''',
        routeCounts = [(''/a'', 2)], limitRate = LimitRateNonCluster\<rparr> \<lparr>path = ''/a''\<rparr>)
       = \<lparr>routeLimits = [(''/a'', 2)], clusterMode = False, connectionString = '''',
          routeCounts = [(''/a'', 2)], limitRate = LimitRateNonCluster\<rparr>
   \<and> fst (limitRateCluster
       \<lparr>routeLimits = [(''/a'', 2)], clusterMode = True, connectionString = '''',
        routeCounts = [], limitRate = LimitRateCluster\<rparr> \<lparr>path = ''/a''\<rparr>
       \<lparr>store = [''routeCounts:/a'' \<mapsto> 1], link = []\<rparr>) = Inr Next
   \<and> decision_of Next = ALLOW
   \<and> store (snd (limitRateCluster
       \<lparr>routeLimits = [(''/a'', 2)], clusterMode = True, connectionString = '''',
        routeCounts = [], limitRate = LimitRateCluster\<rparr> \<lparr>path = ''/a''\<rparr>
       \<lparr>store = [''routeCounts:/a'' \<mapsto> 1], link = []\<rparr>)) ''routeCounts:/a'' = Some 2
   \<and> fst (limitRateCluster
       \<lparr>routeLimits = [(''/a'', 2)], clusterMode = True, connectionString = '''',
        routeCounts = [], limitRate = LimitRateCluster\<rparr> \<lparr>path = ''/a''\<rparr>
       \<lparr>store = [''routeCounts:/a'' \<mapsto> 2], link = []\<rparr>)
       = Inr (Response (limit_reached ''/a''))
   \<and> decision_of (Response (limit_reached ''/a'')) \<noteq> ALLOW
   \<and> store (snd (limitRateCluster
       \<lparr>routeLimits = [(''/a'', 2)], clusterMode = True, connectionString = '''',
        routeCounts = [], limitRate = LimitRateCluster\<rparr> \<lparr>path = ''/a''\<rparr>
       \<lparr>store = [''routeCounts:/a'' \<mapsto> 2], link = []\<rparr>)) = [''routeCounts:/a'' \<mapsto> 2]"
  using counter_step [of
      "\<lparr>routeLimits = [(''/a'', 2)], clusterMode = False, connectionString = '''',
        routeCounts = [(''/a'', 1)], limitRate = LimitRateNonCluster\<rparr>" "\<lparr>path = ''/a''\<rparr>"
      "\<lparr>routeLimits = [(''/a'', 2)], clusterMode = True, connectionString = '''',
        routeCounts = [], limitRate = LimitRateCluster\<rparr>" "\<lparr>path = ''/a''\<rparr>"
      "\<lparr>store = [''routeCounts:/a'' \<mapsto> 1], link = []\<rparr>" Next "''/a''" 1 "''routeCounts:/a''" 1]
    counter_step [of
      "\<lparr>routeLimits = [(''/a'', 2)], clusterMode = False, connectionString = '''',
        routeCounts = [(''/a'', 2)], limitRate = LimitRateNonCluster\<rparr>" "\<lparr>path = ''/a''\<rparr>"
      "\<lparr>routeLimits = [(''/a'', 2)], clusterMode = True, connectionString = '''',
        routeCounts = [], limitRate = LimitRateCluster\<rparr>" "\<lparr>path = ''/a''\<rparr>"
      "\<lparr>store = [''routeCounts:/a'' \<mapsto> 2], link = []\<rparr>"
      "Response (limit_reached ''/a'')" "''/a''" 2 "''routeCounts:/a''" 2]
  by (simp add: limitRateNonCluster_cases cluster_result js_lt_def get_prop_def store_key_def
      delivered_def limit_reached_def Let_def)

text \<open>
  C6 (seeding is create-if-absent). The cluster-mode constructor never changes a value
  the store already holds, whatever the link does; a key it adds is the key of a
  configured route and holds zero. When every command is delivered, each configured
  route has its key afterwards, with the old value if there was one, and constructing a
  second controller on the resulting store changes nothing.
\<close>

theorem seeding_create_if_absent:
  assumes "clusterMode cfg"
  shows "(store r k = Some v \<longrightarrow> store (snd (RateLimiter cfg r)) k = Some v)
    \<and> (store r k = None \<longrightarrow>
          store (snd (RateLimiter cfg r)) k = None
          \<or> (store (snd (RateLimiter cfg r)) k = Some 0
              \<and> k \<in> store_key ` set (lodash_keys (routeLimits cfg))))
    \<and> (link r = [] \<and> key \<in> set (lodash_keys (routeLimits cfg)) \<longrightarrow>
          store (snd (RateLimiter cfg r)) (store_key key)
            = (case store r (store_key key) of None \<Rightarrow> Some 0 | Some c \<Rightarrow> Some c))
    \<and> (link r = [] \<longrightarrow>
          store (snd (RateLimiter cfg (snd (RateLimiter cfg r))))
            = store (snd (RateLimiter cfg r)))"
proof -
  let ?ks = "lodash_keys (routeLimits cfg)"
  let ?r1 = "snd (RateLimiter cfg r)"
  have r1: "?r1 = fold (\<lambda>key r'. snd (redis_setnx r' (store_key key) 0)) ?ks r"
    using assms by (rule ctor_redis)
  have keep: "store ?r1 k' = Some v'" if "store r k' = Some v'" for k' v'
    using that by (simp add: r1 seed_keeps)
  have new: "store ?r1 k = None \<or> (store ?r1 k = Some 0 \<and> k \<in> store_key ` set ?ks)"
    if "store r k = None"
    using seed_new [OF that, of ?ks] by (simp add: r1)
  have present: "store ?r1 (store_key key') \<noteq> None"
    if "link r = []" and "key' \<in> set ?ks" for key'
    using seed_all [OF that] by (simp add: r1)
  have seeded: "store ?r1 (store_key key)
            = (case store r (store_key key) of None \<Rightarrow> Some 0 | Some c \<Rightarrow> Some c)"
    if l: "link r = []" and key: "key \<in> set ?ks"
  proof (cases "store r (store_key key)")
    case None
    with seed_new [OF None, of ?ks] present [OF l key] show ?thesis
      by (auto simp: r1)
  next
    case (Some c)
    with keep [OF Some] show ?thesis by simp
  qed
  have twice: "store (snd (RateLimiter cfg ?r1)) = store ?r1" if l: "link r = []"
  proof -
    have "store (fold (\<lambda>key r'. snd (redis_setnx r' (store_key key) 0)) ?ks ?r1) = store ?r1"
      using present [OF l] by (intro seed_idem)
    then show ?thesis
      using ctor_redis [OF assms, of ?r1] by simp
  qed
  from keep [of k v] new seeded twice show ?thesis by blast
qed

theorem seeding_create_if_absent_witness:
  "clusterMode \<lparr>routeLimits = [(''/a'', 2), (''/b'', 7)], clusterMode = True,
                 connectionString = ''''\<rparr>
   \<and> store \<lparr>store = [''routeCounts:/a'' \<mapsto> 2], link = []\<rparr> ''routeCounts:/a'' = Some 2
   \<and> store (snd (RateLimiter
        \<lparr>routeLimits = [(''/a'', 2), (''/b'', 7)], clusterMode = True, connectionString = ''''\<rparr>
        \<lparr>store = [''routeCounts:/a'' \<mapsto> 2], link = []\<rparr>)) ''routeCounts:/a'' = Some 2
   \<and> store \<lparr>store = [''routeCounts:/a'' \<mapsto> 2], link = []\<rparr> ''routeCounts:/b'' = None
   \<and> link \<lparr>store = [''routeCounts:/a'' \<mapsto> 2], link = []\<rparr> = []
   \<and> ''/b'' \<in> set (lodash_keys [(''/a'', 2), (''/b'', 7)])
   \<and> store (snd (RateLimiter
        \<lparr>routeLimits = [(''/a'', 2), (''/b'', 7)], clusterMode = True, connectionString = ''''\<rparr>
        \<lparr>store = [''routeCounts:/a'' \<mapsto> 2], link = []\<rparr>)) ''routeCounts:/b'' = Some 0
   \<and> store (snd (RateLimiter
        \<lparr>routeLimits = [(''/a'', 2), (''/b'', 7)], clusterMode = True, connectionString = ''''\<rparr>
        (snd (RateLimiter
          \<lparr>routeLimits = [(''/a'', 2), (''/b'', 7)], clusterMode = True, connectionString = ''''\<rparr>
          \<lparr>store = [''routeCounts:/a'' \<mapsto> 2], link = []\<rparr>))))
      = store (snd (RateLimiter
          \<lparr>routeLimits = [(''/a'', 2), (''/b'', 7)], clusterMode = True, connectionString = ''''\<rparr>
          \<lparr>store = [''routeCounts:/a'' \<mapsto> 2], link = []\<rparr>))"
  using seeding_create_if_absent [of
      "\<lparr>routeLimits = [(''/a'', 2), (''/b'', 7)], clusterMode = True, connectionString = ''''\<rparr>"
      "\<lparr>store = [''routeCounts:/a'' \<mapsto> 2], link = []\<rparr>" "''routeCounts:/a''" 2 "''/b''"]
    seeding_create_if_absent [of
      "\<lparr>routeLimits = [(''/a'', 2), (''/b'', 7)], clusterMode = True, connectionString = ''''\<rparr>"
      "\<lparr>store = [''routeCounts:/a'' \<mapsto> 2], link = []\<rparr>" "''routeCounts:/b''" 0 "''/b''"]
  by (simp add: lodash_keys_def store_key_def)

text \<open>
  C7 (counts and limits have the same keys). Without cluster mode, the controller the
  constructor returns has a \<open>routeCounts\<close> with exactly the keys of \<open>routeLimits\<close>, in
  the same order, each with the count zero, and no other key; \<open>_.has\<close> answers alike on
  the two objects; its \<open>routeLimits\<close> are the configured ones, and the store and the
  link are untouched.
\<close>

theorem local_counts_match_limits:
  assumes "\<not> clusterMode cfg"
  shows "lodash_keys (routeCounts (fst (RateLimiter cfg r))) = lodash_keys (routeLimits cfg)
       \<and> routeLimits (fst (RateLimiter cfg r)) = routeLimits cfg
       \<and> own_key (routeCounts (fst (RateLimiter cfg r))) k = own_key (routeLimits cfg) k
       \<and> lodash_has (routeCounts (fst (RateLimiter cfg r))) k = lodash_has (routeLimits cfg) k
       \<and> get_prop (routeCounts (fst (RateLimiter cfg r))) k
            = (if own_key (routeLimits cfg) k then Num 0 else Undefined)
       \<and> (\<forall>(k', v) \<in> set (routeCounts (fst (RateLimiter cfg r))). v = 0)
       \<and> snd (RateLimiter cfg r) = r"
proof -
  have "routeCounts (fst (RateLimiter cfg r)) = lodash_mapValues (routeLimits cfg) (\<lambda>_. 0)"
    using assms by (simp add: RateLimiter_def)
  moreover have "\<forall>(k', v) \<in> set (lodash_mapValues (routeLimits cfg) (\<lambda>_. 0)). v = 0"
    by (auto simp: lodash_mapValues_def)
  moreover have "snd (RateLimiter cfg r) = r"
    using assms by (simp add: RateLimiter_def)
  moreover have "lodash_has (lodash_mapValues (routeLimits cfg) (\<lambda>_. 0)) k
      = lodash_has (routeLimits cfg) k"
    by (rule has_cong) (simp add: own_key_def map_of_mapValues)
  ultimately show ?thesis
    by (simp add: keys_mapValues own_key_def get_prop_def map_of_mapValues
        split: option.splits)
qed

theorem local_counts_match_limits_witness:
  "\<not> clusterMode \<lparr>routeLimits = [(''/a'', 2), (''/b'', 7)], clusterMode = False,
                   connectionString = ''''\<rparr>
   \<and> routeCounts (fst (RateLimiter
         \<lparr>routeLimits = [(''/a'', 2), (''/b'', 7)], clusterMode = False, connectionString = ''''\<rparr>
         \<lparr>store = Map.empty, link = []\<rparr>))
       = [(''/a'', 0), (''/b'', 0)]
   \<and> lodash_keys (routeCounts (fst (RateLimiter
         \<lparr>routeLimits = [(''/a'', 2), (''/b'', 7)], clusterMode = False, connectionString = ''''\<rparr>
         \<lparr>store = Map.empty, link = []\<rparr>)))
       = [''/a'', ''/b'']
   \<and> get_prop (routeCounts (fst (RateLimiter
         \<lparr>routeLimits = [(''/a'', 2), (''/b'', 7)], clusterMode = False, connectionString = ''''\<rparr>
         \<lparr>store = Map.empty, link = []\<rparr>))) ''/b'' = Num 0
   \<and> get_prop (routeCounts (fst (RateLimiter
         \<lparr>routeLimits = [(''/a'', 2), (''/b'', 7)], clusterMode = False, connectionString = ''''\<rparr>
         \<lparr>store = Map.empty, link = []\<rparr>))) ''/c'' = Undefined"
  using local_counts_match_limits [of
      "\<lparr>routeLimits = [(''/a'', 2), (''/b'', 7)], clusterMode = False, connectionString = ''''\<rparr>"
      "\<lparr>store = Map.empty, link = []\<rparr>" "''/b''"]
    local_counts_match_limits [of
      "\<lparr>routeLimits = [(''/a'', 2), (''/b'', 7)], clusterMode = False, connectionString = ''''\<rparr>"
      "\<lparr>store = Map.empty, link = []\<rparr>" "''/c''"]
  by (simp add: lodash_keys_def own_key_def RateLimiter_def lodash_mapValues_def)

text \<open>
  C8 (no over-admission without cluster mode). Requests \<open>rqs\<close> arrive at a fresh
  controller together and the event loop handles them in any order \<open>sched\<close>. Whatever
  the order, the number of requests on the route \<open>p\<close> that are allowed is the number
  of requests on \<open>p\<close> or the limit \<open>N\<close>, whichever is smaller: never more than \<open>N\<close>.
  When at most \<open>N\<close> of the requests are on \<open>p\<close> (exactly \<open>N\<close>, for one), every one of
  them is allowed.
\<close>

theorem local_no_over_admission:
  fixes sched rqs :: "'a req_scheme list"
  assumes "\<not> clusterMode cfg" and "map_of (routeLimits cfg) p = Some N"
    and "mset sched = mset rqs"
  shows "admitted p sched (fst (serve (fst (RateLimiter cfg r)) sched))
           = min (count_list (map path rqs) p) (nat N)
         \<and> (int (count_list (map path rqs) p) \<le> N \<longrightarrow>
              (\<forall>i < length sched. path (sched ! i) = p \<longrightarrow>
                 fst (serve (fst (RateLimiter cfg r)) sched) ! i = Next))"
proof -
  let ?ctl = "fst (RateLimiter cfg r)"
  let ?k = "count_list (map path rqs) p"
  have "mset (map path sched) = mset (map path rqs)"
    using assms(3) by (metis mset_map)
  then have k: "count_list (map path sched) p = ?k"
    by (metis count_mset)
  have c0: "map_of (routeCounts ?ctl) p = Some 0"
    using assms(1,2) by (simp add: fresh_counts)
  have l0: "map_of (routeLimits ?ctl) p = Some N"
    using assms(2) by simp
  have "Some (0 + int (admitted p sched (fst (serve ?ctl sched))))
          = Some (max 0 (min (0 + int ?k) N))"
    using serve_admitted [OF c0, of sched] serve_count [OF c0 l0, of sched] k by simp
  then have "int (admitted p sched (fst (serve ?ctl sched))) = max 0 (min (int ?k) N)"
    by simp
  then have first: "admitted p sched (fst (serve ?ctl sched)) = min ?k (nat N)"
    by arith
  have second: "fst (serve ?ctl sched) ! i = Next"
    if le: "int ?k \<le> N" and i: "i < length sched" and pi: "path (sched ! i) = p" for i
  proof -
    have "count_list (take i (map path sched)) p < count_list (map path sched) p"
      using count_list_take_less [of i "map path sched" p] i pi by simp
    then have lt: "int (count_list (map path (take i sched)) p) < N"
      using le k by (simp add: take_map)
    have "fst (serve ?ctl sched) ! i
            = fst (limitRateNonCluster (snd (serve ?ctl (take i sched))) (sched ! i))"
      using serve_nth [OF i] .
    also have "\<dots> = (if int (count_list (map path (take i sched)) p) < N then Next
                      else Response (limit_reached p))"
      using nc_after_serve [OF assms(1,2) pi refl] .
    finally show ?thesis using lt by simp
  qed
  from first second show ?thesis by blast
qed

theorem local_no_over_admission_witness:
  "\<not> clusterMode \<lparr>routeLimits = [(''/a'', 2)], clusterMode = False, connectionString = ''''\<rparr>
   \<and> map_of (routeLimits \<lparr>routeLimits = [(''/a'', 2)], clusterMode = False,
                          connectionString = ''''\<rparr>) ''/a'' = Some 2
   \<and> mset [\<lparr>path = ''/a''\<rparr>, \<lparr>path = ''/b''\<rparr>, \<lparr>path = ''/a''\<rparr>]
       = mset [\<lparr>path = ''/b''\<rparr>, \<lparr>path = ''/a''\<rparr>, \<lparr>path = ''/a''\<rparr>]
   \<and> int (count_list (map path [\<lparr>path = ''/b''\<rparr>, \<lparr>path = ''/a''\<rparr>, \<lparr>path = ''/a''\<rparr>]) ''/a'') \<le> 2
   \<and> (2::nat) < length [\<lparr>path = ''/a''\<rparr>, \<lparr>path = ''/b''\<rparr>, \<lparr>path = ''/a''\<rparr>]
   \<and> path ([\<lparr>path = ''/a''\<rparr>, \<lparr>path = ''/b''\<rparr>, \<lparr>path = ''/a''\<rparr>] ! 2) = ''/a''
   \<and> admitted ''/a'' [\<lparr>path = ''/a''\<rparr>, \<lparr>path = ''/b''\<rparr>, \<lparr>path = ''/a''\<rparr>]
        (fst (serve (fst (RateLimiter \<lparr>routeLimits = [(''/a'', 2)], clusterMode = False,
                                       connectionString = ''''\<rparr>
                            \<lparr>store = Map.empty, link = []\<rparr>))
               [\<lparr>path = ''/a''\<rparr>, \<lparr>path = ''/b''\<rparr>, \<lparr>path = ''/a''\<rparr>])) = 2
   \<and> fst (serve (fst (RateLimiter \<lparr>routeLimits = [(''/a'', 2)], clusterMode = False,
                                   connectionString = ''''\<rparr>
                        \<lparr>store = Map.empty, link = []\<rparr>))
            [\<lparr>path = ''/a''\<rparr>, \<lparr>path = ''/b''\<rparr>, \<lparr>path = ''/a''\<rparr>]) ! 2 = Next"
  using local_no_over_admission [of
      "\<lparr>routeLimits = [(''/a'', 2)], clusterMode = False, connectionString = ''''\<rparr>"
      "''/a''" 2
      "[\<lparr>path = ''/a''\<rparr>, \<lparr>path = ''/b''\<rparr>, \<lparr>path = ''/a''\<rparr>]"
      "[\<lparr>path = ''/b''\<rparr>, \<lparr>path = ''/a''\<rparr>, \<lparr>path = ''/a''\<rparr>]"
      "\<lparr>store = Map.empty, link = []\<rparr>"]
  by simp

text \<open>
  C9 (the two rejections). In both modes a response of the handler is one of two, told
  apart by the \<open>statusCode\<close> of the body, which is what \<open>decision_of\<close> reads: 400 with
  the message that the route is not configured, and 429 with the message that the route
  has reached its limit. The first is written when \<open>_.has\<close> does not find the path in
  \<open>routeCounts\<close> (when the store has no key for it, in cluster mode), the second
  otherwise. In both, the message contains the path of the request.
\<close>

theorem rejection_shape:
  "(fst (limitRateNonCluster this rq) = Response resp \<longrightarrow>
      sublist (path rq) (message resp)
      \<and> statusCode resp = (if lodash_has (routeCounts this) (path rq) then 429 else 400)
      \<and> resp = (if lodash_has (routeCounts this) (path rq)
                 then limit_reached (path rq) else not_configured (path rq)))
   \<and> (fst (limitRateCluster ctl rq' r) = Inr (Response resp') \<longrightarrow>
      sublist (path rq') (message resp')
      \<and> statusCode resp' = (if store r (store_key (path rq')) = None then 400 else 429)
      \<and> resp' = (if store r (store_key (path rq')) = None
                  then not_configured (path rq') else limit_reached (path rq')))
   \<and> statusCode (not_configured p) = 400 \<and> statusCode (limit_reached p) = 429
   \<and> decision_of (Response (not_configured p)) = REJECT_UNKNOWN_ROUTE
   \<and> decision_of (Response (limit_reached p)) = REJECT_QUOTA_EXCEEDED"
proof -
  have shape_local: "resp = (if lodash_has (routeCounts this) (path rq)
                 then limit_reached (path rq) else not_configured (path rq))"
    if "fst (limitRateNonCluster this rq) = Response resp"
    using that
    by (auto simp: limitRateNonCluster_def Let_def split: if_splits)
  have shape_shared: "resp' = (if store r (store_key (path rq')) = None
                  then not_configured (path rq') else limit_reached (path rq'))"
    if "fst (limitRateCluster ctl rq' r) = Inr (Response resp')"
    using that by (auto simp: cluster_result split: option.splits if_splits)
  have codes: "statusCode (not_configured p') = 400 \<and> statusCode (limit_reached p') = 429" for p'
    by (simp add: not_configured_def limit_reached_def)
  have a: "sublist (path rq) (message resp)
      \<and> statusCode resp = (if lodash_has (routeCounts this) (path rq) then 429 else 400)
      \<and> resp = (if lodash_has (routeCounts this) (path rq)
                 then limit_reached (path rq) else not_configured (path rq))"
    if "fst (limitRateNonCluster this rq) = Response resp"
    using shape_local [OF that] codes [of "path rq"]
      sublist_not_configured [of "path rq"] sublist_limit_reached [of "path rq"]
    by (simp split: if_splits)
  have b: "sublist (path rq') (message resp')
      \<and> statusCode resp' = (if store r (store_key (path rq')) = None then 400 else 429)
      \<and> resp' = (if store r (store_key (path rq')) = None
                  then not_configured (path rq') else limit_reached (path rq'))"
    if "fst (limitRateCluster ctl rq' r) = Inr (Response resp')"
    using shape_shared [OF that] codes [of "path rq'"]
      sublist_not_configured [of "path rq'"] sublist_limit_reached [of "path rq'"]
    by (simp split: if_splits)
  have c: "decision_of (Response (not_configured p)) = REJECT_UNKNOWN_ROUTE
      \<and> decision_of (Response (limit_reached p)) = REJECT_QUOTA_EXCEEDED"
    using codes [of p] by simp
  from a b c codes [of p] show ?thesis by blast
qed

text \<open>
  The witness has both rejections in both modes, and the request on \<open>/a[.]\<close>, which
  \<open>_.has\<close> reads as the configured \<open>/a\<close>: it gets the limit-reached response.
\<close>

theorem rejection_shape_witness:
  "fst (limitRateNonCluster
       \<lparr>routeLimits = [(''/a'', 2)], clusterMode = False, connectionString = '''',
        routeCounts = [(''/a'', 2)], limitRate = LimitRateNonCluster\<rparr> \<lparr>path = ''/b''\<rparr>)
     = Response \<lparr>status = 429, statusCode = 400, message = ''Route path /b not configured.''\<rparr>
   \<and> sublist ''/b'' ''Route path /b not configured.''
   \<and> fst (limitRateNonCluster
       \<lparr>routeLimits = [(''/a'', 2)], clusterMode = False, connectionString = '''',
        routeCounts = [(''/a'', 2)], limitRate = LimitRateNonCluster\<rparr> \<lparr>path = ''/a''\<rparr>)
     = Response \<lparr>status = 429, statusCode = 429,
                 message = ''Route path /a has reached its request limit.''\<rparr>
   \<and> sublist ''/a'' ''Route path /a has reached its request limit.''
   \<and> fst (limitRateNonCluster
       \<lparr>routeLimits = [(''/a'', 2)], clusterMode = False, connectionString = '''',
        routeCounts = [(''/a'', 0)], limitRate = LimitRateNonCluster\<rparr> \<lparr>path = ''/a[.]''\<rparr>)
     = Response \<lparr>status = 429, statusCode = 429,
                 message = ''Route path /a[.] has reached its request limit.''\<rparr>
   \<and> fst (limitRateCluster
       \<lparr>routeLimits = [(''/a'', 2)], clusterMode = True, connectionString = '''',
        routeCounts = [], limitRate = LimitRateCluster\<rparr> \<lparr>path = ''/a''\<rparr>
       \<lparr>store = [''routeCounts:/a'' \<mapsto> 2], link = []\<rparr>)
     = Inr (Response \<lparr>status = 429, statusCode = 429,
                      message = ''Route path /a has reached its request limit.''\<rparr>)
   \<and> fst (limitRateCluster
       \<lparr>routeLimits = [(''/a'', 2)], clusterMode = True, connectionString = '''',
        routeCounts = [], limitRate = LimitRateCluster\<rparr> \<lparr>path = ''/b''\<rparr>
       \<lparr>store = [''routeCounts:/a'' \<mapsto> 2], link = []\<rparr>)
     = Inr (Response \<lparr>status = 429, statusCode = 400,
                      message = ''Route path /b not configured.''\<rparr>)"
  using rejection_shape [of
      "\<lparr>routeLimits = [(''/a'', 2)], clusterMode = False, connectionString = '''',
        routeCounts = [(''/a'', 2)], limitRate = LimitRateNonCluster\<rparr>" "\<lparr>path = ''/b''\<rparr>"
      "\<lparr>status = 429, statusCode = 400, message = ''Route path /b not configured.''\<rparr>"
      "\<lparr>routeLimits = [(''/a'', 2)], clusterMode = True, connectionString = '''',
        routeCounts = [], limitRate = LimitRateCluster\<rparr>" "\<lparr>path = ''/a''\<rparr>"
      "\<lparr>store = [''routeCounts:/a'' \<mapsto> 2], link = []\<rparr>"
      "\<lparr>status = 429, statusCode = 429,
        message = ''Route path /a has reached its request limit.''\<rparr>" "''/a''"]
    rejection_shape [of
      "\<lparr>routeLimits = [(''/a'', 2)], clusterMode = False, connectionString = '''',
        routeCounts = [(''/a'', 2)], limitRate = LimitRateNonCluster\<rparr>" "\<lparr>path = ''/a''\<rparr>"
      "\<lparr>status = 429, statusCode = 429,
        message = ''Route path /a has reached its request limit.''\<rparr>"
      "\<lparr>routeLimits = [(''/a'', 2)], clusterMode = True, connectionString = '''',
        routeCounts = [], limitRate = LimitRateCluster\<rparr>" "\<lparr>path = ''/b''\<rparr>"
      "\<lparr>store = [''routeCounts:/a'' \<mapsto> 2], link = []\<rparr>"
      "\<lparr>status = 429, statusCode = 400, message = ''Route path /b not configured.''\<rparr>"
      "''/b''"]
    rejection_shape [of
      "\<lparr>routeLimits = [(''/a'', 2)], clusterMode = False, connectionString = '''',
        routeCounts = [(''/a'', 0)], limitRate = LimitRateNonCluster\<rparr>" "\<lparr>path = ''/a[.]''\<rparr>"
      "\<lparr>status = 429, statusCode = 429,
        message = ''Route path /a[.] has reached its request limit.''\<rparr>"
      "\<lparr>routeLimits = [(''/a'', 2)], clusterMode = True, connectionString = '''',
        routeCounts = [], limitRate = LimitRateCluster\<rparr>" "\<lparr>path = ''/b''\<rparr>"
      "\<lparr>store = [''routeCounts:/a'' \<mapsto> 2], link = []\<rparr>"
      "\<lparr>status = 429, statusCode = 400, message = ''Route path /b not configured.''\<rparr>"
      "''/b''"]
  by (simp add: limitRateNonCluster_cases cluster_result js_lt_def get_prop_def store_key_def
      delivered_def limit_reached_def not_configured_def Let_def has_plain_path own_key_def
      has_bracket_dot)

end
